theory Spec2Isabelle
  imports Complex_Main "HOL-Library.Sublist" "HOL-Library.Char_ord" "HOL-Library.List_Lexorder"
begin

section \<open>Python values, exceptions and dictionaries\<close>

text \<open>
  The validator is Python. A \<open>float\<close> is taken as the rational number it stands for,
  and arithmetic on floats as exact: rounding, infinities and NaN are not part of the model.
  The theorems below are about what does not depend on them: which entries are kept and
  in which order, which exceptions are raised and where, which calls are made. Python's
  \<open>int\<close> is \<open>int\<close>. A \<open>dict\<close> keeps its keys in insertion order, and the code depends on
  that order (sorting is stable, results are zipped back by position), so a dictionary is
  an association list whose keys are distinct; the functions below that build one go
  through \<open>setitem\<close>, which overwrites an existing key in place and appends a new one.
\<close>

datatype py_exception =
    ZeroDivisionError
  | RuntimeError string
  | KeyError string
  | TypeError
  | IndexError
  | ValueError string
  | TimeoutError
  | ConnectionError
  | KeyboardInterrupt

type_synonym ('k, 'v) dict = "('k \<times> 'v) list"

fun setitem :: "('k, 'v) dict \<Rightarrow> 'k \<Rightarrow> 'v \<Rightarrow> ('k, 'v) dict" where
  "setitem [] k v = [(k, v)]"
| "setitem ((k', v') # d) k v = (if k' = k then (k, v) # d else (k', v') # setitem d k v)"

text \<open>\<open>dict(pairs)\<close>: the pairs are stored one after the other.\<close>

definition dict_of :: "('k \<times> 'v) list \<Rightarrow> ('k, 'v) dict" where
  "dict_of ps = foldl (\<lambda>d (k, v). setitem d k v) [] ps"

text \<open>\<open>d.get(k, None)\<close>.\<close>

definition dict_get :: "('k, 'v) dict \<Rightarrow> 'k \<Rightarrow> 'v option" where
  "dict_get d k = map_of d k"

text \<open>
  \<open>sorted(xs, key=f, reverse=True)\<close>: CPython reverses the list, sorts it stably in
  ascending order and reverses the result, so that equal keys keep their original order.
  \<open>sort_key\<close> is the stable insertion sort of the list library.
\<close>

definition sorted_reverse :: "('a \<Rightarrow> 'b::linorder) \<Rightarrow> 'a list \<Rightarrow> 'a list" where
  "sorted_reverse f xs = rev (sort_key f (rev xs))"

text \<open>\<open>xs[:k]\<close>: a negative bound counts from the end, and every bound is clamped.\<close>

definition slice_upto :: "int \<Rightarrow> 'a list \<Rightarrow> 'a list" where
  "slice_upto k xs = take (nat (if k < 0 then int (length xs) + k else k)) xs"

text \<open>
  \<open>int(x)\<close> of a finite float truncates towards zero. The code applies it to a quotient
  of floats, which is rounded before it is truncated; here the quotient is exact.
\<close>

definition py_int :: "rat \<Rightarrow> int" where
  "py_int x = (if 0 \<le> x then \<lfloor>x\<rfloor> else \<lceil>x\<rceil>)"

text \<open>\<open>a / b\<close> on floats raises on a zero divisor.\<close>

definition truediv :: "rat \<Rightarrow> rat \<Rightarrow> py_exception + rat" where
  "truediv a b = (if b = 0 then Inl ZeroDivisionError else Inr (a / b))"

section \<open>Weight normalisation\<close>

text \<open>\<open>cut_to_max_allowed_weights(score_dict, max_allowed_weights)\<close>.\<close>

definition cut_to_max_allowed_weights :: "(int, rat) dict \<Rightarrow> int \<Rightarrow> (int, rat) dict" where
  "cut_to_max_allowed_weights score_dict max_allowed_weights =
     (let sorted_scores = sorted_reverse snd score_dict;
          cut_scores = slice_upto max_allowed_weights sorted_scores
      in dict_of cut_scores)"

text \<open>
  The loop of \<open>set_weights\<close> over \<open>score_dict.items()\<close>; \<open>scores\<close> is the sum taken before
  the loop, \<open>weighted_scores\<close> the dictionary being filled.
\<close>

fun weigh :: "rat \<Rightarrow> (int \<times> rat) list \<Rightarrow> (int, int) dict \<Rightarrow> py_exception + (int, int) dict" where
  "weigh scores [] weighted_scores = Inr weighted_scores"
| "weigh scores ((uid, score) # items) weighted_scores =
     (case truediv (score * 1000) scores of
        Inl e \<Rightarrow> Inl e
      | Inr q \<Rightarrow> weigh scores items (setitem weighted_scores uid (py_int q)))"

text \<open>
  \<open>set_weights\<close> ends in \<open>client.vote(key, uids, weights, netuid)\<close>. The ledger client is
  outside the repository; the model returns the arguments of that call, so \<open>Inr v\<close> says
  that the vote \<open>v\<close> was sent and \<open>Inl e\<close> that \<open>e\<close> was raised before any vote.
\<close>

record vote =
  uids :: "int list"
  weights :: "int list"

definition set_weights :: "int \<Rightarrow> (int, rat) dict \<Rightarrow> py_exception + vote" where
  "set_weights max_allowed_weights score_dict0 =
     (let score_dict = cut_to_max_allowed_weights score_dict0 max_allowed_weights;
          scores = sum_list (map snd score_dict)
      in case weigh scores score_dict [] of
           Inl e \<Rightarrow> Inl e
         | Inr weighted_scores0 \<Rightarrow>
             (let weighted_scores = dict_of (filter (\<lambda>(k, v). v \<noteq> 0) weighted_scores0)
              in Inr \<lparr>uids = map fst weighted_scores, weights = map snd weighted_scores\<rparr>))"


section \<open>Address resolution\<close>

text \<open>
  \<open>IP_REGEX = re.compile(r"\d{1,3}\.\d{1,3}\.\d{1,3}\.\d{1,3}:\d+")\<close>. The pattern is a
  sequence of literal characters and greedy digit repetitions; \<open>match_here\<close> is the
  backtracking matcher for such sequences (the longest repetition first, then shorter
  ones), and \<open>re_search\<close> tries every start position from the left, as \<open>re.search\<close> does,
  returning \<open>group(0)\<close>. Characters are single bytes, where \<open>\d\<close> is \<open>0\<close> to \<open>9\<close>.
\<close>

datatype token = Digits nat "nat option" | Lit char

definition isdigit :: "char \<Rightarrow> bool" where
  "isdigit c = (c \<in> set ''0123456789'')"

fun try_counts :: "(string \<Rightarrow> string option) \<Rightarrow> string \<Rightarrow> nat \<Rightarrow> nat \<Rightarrow> string option" where
  "try_counts k s lo 0 = (if 0 < lo then None else k s)"
| "try_counts k s lo (Suc n) =
     (if Suc n < lo then None
      else case k (drop (Suc n) s) of
             Some m \<Rightarrow> Some (take (Suc n) s @ m)
           | None \<Rightarrow> try_counts k s lo n)"

primrec match_here :: "token list \<Rightarrow> string \<Rightarrow> string option" where
  "match_here [] = (\<lambda>s. Some [])"
| "match_here (t # ts) = (\<lambda>s.
     case t of
       Lit c \<Rightarrow> (case s of
                  [] \<Rightarrow> None
                | x # xs \<Rightarrow> if x = c then map_option ((#) x) (match_here ts xs) else None)
     | Digits lo hi \<Rightarrow>
         (let run = length (takeWhile isdigit s);
              top = (case hi of None \<Rightarrow> run | Some h \<Rightarrow> min h run)
          in try_counts (match_here ts) s lo top))"

fun re_search :: "token list \<Rightarrow> string \<Rightarrow> string option" where
  "re_search ts [] = match_here ts []"
| "re_search ts (c # s) =
     (case match_here ts (c # s) of Some m \<Rightarrow> Some m | None \<Rightarrow> re_search ts s)"

definition IP_REGEX :: "token list" where
  "IP_REGEX = [Digits 1 (Some 3), Lit CHR ''.'', Digits 1 (Some 3), Lit CHR ''.'',
               Digits 1 (Some 3), Lit CHR ''.'', Digits 1 (Some 3), Lit CHR '':'',
               Digits 1 None]"

definition extract_address :: "string \<Rightarrow> string option" where
  "extract_address string = re_search IP_REGEX string"

text \<open>\<open>s.split(sep)\<close> for a one-character separator.\<close>

fun split :: "char \<Rightarrow> string \<Rightarrow> string list" where
  "split sep [] = [[]]"
| "split sep (c # s) =
     (if c = sep then [] # split sep s
      else (c # hd (split sep s)) # tl (split sep s))"

text \<open>
  Values whose Python type matters (what a peer sends back, what \<open>get_ip_port\<close> hands on)
  are dynamically typed values.
\<close>

datatype pyval =
    PNone
  | PBool bool
  | PInt int
  | PFloat rat
  | PStr string
  | PList "pyval list"
  | PDict "(string \<times> pyval) list"

text \<open>
  \<open>get_ip_port\<close>: two dictionary comprehensions; the value kept for a module is the list
  \<open>x.group(0).split(":")\<close>, a list of strings.
\<close>

definition get_ip_port :: "(int, string) dict \<Rightarrow> (int, pyval) dict" where
  "get_ip_port modules_adresses =
     (let filtered_addr = dict_of (map (\<lambda>(id, addr). (id, extract_address addr)) modules_adresses);
          ip_port = dict_of (concat (map (\<lambda>(id, x).
                       case x of
                         None \<Rightarrow> []
                       | Some m \<Rightarrow> [(id, PList (map PStr (split CHR '':'' m)))]) filtered_addr))
      in ip_port)"

text \<open>
  The words of the specification, to compare \<open>get_ip_port\<close> with: a host is four
  dot-separated groups of one to three digits, a port is one or more digits, and a raw
  string is kept when it contains \<open>host:port\<close> somewhere.
\<close>

definition octet :: "string \<Rightarrow> bool" where
  "octet d = (1 \<le> length d \<and> length d \<le> 3 \<and> (\<forall>c \<in> set d. isdigit c))"

definition host :: "string \<Rightarrow> bool" where
  "host h = (\<exists>a b c d. h = a @ ''.'' @ b @ ''.'' @ c @ ''.'' @ d
                        \<and> octet a \<and> octet b \<and> octet c \<and> octet d)"

definition port :: "string \<Rightarrow> bool" where
  "port p = (p \<noteq> [] \<and> (\<forall>c \<in> set p. isdigit c))"

definition contains_host_port :: "string \<Rightarrow> bool" where
  "contains_host_port raw = (\<exists>pre h p post. raw = pre @ h @ '':'' @ p @ post \<and> host h \<and> port p)"

text \<open>
  The strings the pattern matches, written without reference to the matcher: each token
  takes a part of the string, a literal its character and a repetition a run of digits of
  an allowed length.
\<close>

primrec lang :: "token list \<Rightarrow> string \<Rightarrow> bool" where
  "lang [] m = (m = [])"
| "lang (t # ts) m =
     (case t of
        Lit c \<Rightarrow> (\<exists>r. m = c # r \<and> lang ts r)
      | Digits lo hi \<Rightarrow>
          (\<exists>d r. m = d @ r \<and> (\<forall>x \<in> set d. isdigit x) \<and> lo \<le> length d
                 \<and> (case hi of None \<Rightarrow> True | Some h \<Rightarrow> length d \<le> h) \<and> lang ts r))"

text \<open>What \<open>get_ip_port\<close> keeps for one entry of its argument.\<close>

definition address_entry :: "int \<times> string \<Rightarrow> (int \<times> pyval) list" where
  "address_entry = (\<lambda>(id, raw). case extract_address raw of
                       None \<Rightarrow> []
                     | Some m \<Rightarrow> [(id, PList (map PStr (split CHR '':'' m)))])"

section \<open>Similarity scoring\<close>

text \<open>
  The three similarity measures come from libraries outside the repository
  (\<open>jellyfish\<close>, \<open>scikit-learn\<close> with \<open>scipy\<close>, \<open>difflib\<close>); the scoring functions take
  them as parameters. \<open>fit_transform\<close> stands for
  \<open>CountVectorizer(analyzer='char', ngram_range=(2, 2)).fit_transform(strings).toarray()\<close>,
  which may raise. The measures are taken to return numbers; where \<open>dice\<close> does not
  (see \<open>scipy_dice\<close> below), the scores of a round are outside this model.
\<close>

record libs =
  jaro_winkler_similarity :: "string \<Rightarrow> string \<Rightarrow> rat"
  fit_transform :: "string list \<Rightarrow> py_exception + nat list list"
  dice :: "nat list \<Rightarrow> nat list \<Rightarrow> rat"
  ratio :: "string \<Rightarrow> string \<Rightarrow> rat"

text \<open>
  The double loop shared by the three \<open>calculate_..._scores\<close> methods:
  \<open>scores = [0] * n\<close>, then for \<open>i\<close> and \<open>j\<close> in \<open>range(n)\<close> with \<open>i != j\<close>,
  \<open>scores[i] += similarity * 0.1\<close>.
\<close>

definition pairwise_scores :: "(nat \<Rightarrow> nat \<Rightarrow> rat) \<Rightarrow> nat \<Rightarrow> rat list" where
  "pairwise_scores similarity n =
     foldl (\<lambda>scores i.
        foldl (\<lambda>scores j.
           if i \<noteq> j then scores[i := scores ! i + similarity i j * (1 / 10)] else scores)
          scores [0..<n])
       (replicate n 0) [0..<n]"

definition calculate_jaro_winkler_scores :: "libs \<Rightarrow> string list \<Rightarrow> rat list" where
  "calculate_jaro_winkler_scores L strings =
     pairwise_scores (\<lambda>i j. jaro_winkler_similarity L (strings ! i) (strings ! j)) (length strings)"

text \<open>
  \<open>X[i]\<close> is read only for a pair \<open>i != j\<close>; a matrix with fewer rows than strings makes
  that read an \<open>IndexError\<close>.
\<close>

definition calculate_dice_similarity_scores :: "libs \<Rightarrow> string list \<Rightarrow> py_exception + rat list" where
  "calculate_dice_similarity_scores L strings =
     (case fit_transform L strings of
        Inl e \<Rightarrow> Inl e
      | Inr X \<Rightarrow>
          (let n = length strings
           in if length X < n \<and> 2 \<le> n then Inl IndexError
              else Inr (pairwise_scores (\<lambda>i j. 1 - dice L (X ! i) (X ! j)) n)))"

definition calculate_ratcliff_obershelp_scores :: "libs \<Rightarrow> string list \<Rightarrow> rat list" where
  "calculate_ratcliff_obershelp_scores L strings =
     pairwise_scores (\<lambda>i j. ratio L (strings ! i) (strings ! j)) (length strings)"

text \<open>The loop of \<open>_score_miner\<close> over \<open>enumerate(miner_time)\<close>.\<close>

fun score_loop ::
  "rat list \<Rightarrow> rat list \<Rightarrow> rat list \<Rightarrow> int list \<Rightarrow> (nat \<times> rat) list \<Rightarrow> (int, rat) dict
   \<Rightarrow> py_exception + (int, rat) dict" where
  "score_loop jw dc ro miner_uids [] score_dict = Inr score_dict"
| "score_loop jw dc ro miner_uids ((i, time0) # rest) score_dict =
     (let time = max time0 1
      in if i < length jw \<and> i < length dc \<and> i < length ro \<and> i < length miner_uids
         then score_loop jw dc ro miner_uids rest
                (setitem score_dict (miner_uids ! i)
                   ((jw ! i + dc ! i + ro ! i) / 3 * (8 / 10) + (1 / time) * (2 / 10)))
         else Inl IndexError)"

definition score_miner ::
  "libs \<Rightarrow> string list \<Rightarrow> int list \<Rightarrow> rat list \<Rightarrow> py_exception + (int, rat) dict" where
  "score_miner L miner_res miner_uids miner_time =
     (let jaro_winkler_scores = calculate_jaro_winkler_scores L miner_res
      in case calculate_dice_similarity_scores L miner_res of
           Inl e \<Rightarrow> Inl e
         | Inr dice_scores \<Rightarrow>
             (let ratcliff_obershelp_scores = calculate_ratcliff_obershelp_scores L miner_res
              in score_loop jaro_winkler_scores dice_scores ratcliff_obershelp_scores miner_uids
                   (enumerate 0 miner_time) []))"

subsection \<open>The dissimilarity of two count rows\<close>

text \<open>
  What \<open>scipy.spatial.distance.dice(u, v)\<close> computes on two rows of counts: with
  \<open>ntt\<close> the sum of \<open>u * v\<close>, \<open>nft\<close> the sum of \<open>(1 - u) * v\<close> and \<open>ntf\<close> the sum of
  \<open>u * (1 - v)\<close>, it returns the float quotient \<open>(ntf + nft) / (2 * ntt + ntf + nft)\<close>
  by numpy's division, which raises nothing on a zero divisor: \<open>0 / 0\<close> is NaN.
\<close>

definition dice_dividend :: "nat list \<Rightarrow> nat list \<Rightarrow> int" where
  "dice_dividend u v =
     sum_list (map (\<lambda>(a, b). int a * (1 - int b)) (zip u v))
     + sum_list (map (\<lambda>(a, b). (1 - int a) * int b) (zip u v))"

definition dice_divisor :: "nat list \<Rightarrow> nat list \<Rightarrow> int" where
  "dice_divisor u v =
     2 * sum_list (map (\<lambda>(a, b). int a * int b) (zip u v)) + dice_dividend u v"

text \<open>The quotient, with \<open>None\<close> for NaN.\<close>

definition scipy_dice :: "nat list \<Rightarrow> nat list \<Rightarrow> rat option" where
  "scipy_dice u v =
     (if dice_divisor u v = 0 then None
      else Some (of_int (dice_dividend u v) / of_int (dice_divisor u v)))"

subsection \<open>The character-bigram vectorizer\<close>

text \<open>
  What scikit-learn's \<open>CountVectorizer(analyzer='char', ngram_range=(2, 2))\<close> does on
  ASCII text: each document is lower-cased, runs of two or more blanks become one space,
  and every pair of adjacent characters is a feature; the vocabulary is the sorted set of
  features seen, and \<open>fit_transform\<close> raises \<open>ValueError\<close> when it is empty; otherwise
  row \<open>d\<close> counts each feature in document \<open>d\<close>.
\<close>

definition lower :: "char \<Rightarrow> char" where
  "lower c = (if c \<in> set ''ABCDEFGHIJKLMNOPQRSTUVWXYZ'' then char_of (of_char c + (32::nat)) else c)"

definition isspace :: "char \<Rightarrow> bool" where
  "isspace c = (c \<in> set [CHR '' '', CHR 0x09, CHR 0x0A, CHR 0x0B, CHR 0x0C, CHR 0x0D])"

function white_spaces_sub :: "string \<Rightarrow> string" where
  "white_spaces_sub [] = []"
| "white_spaces_sub [c] = [c]"
| "white_spaces_sub (c # c' # s) =
     (if isspace c \<and> isspace c' then CHR '' '' # white_spaces_sub (dropWhile isspace s)
      else c # white_spaces_sub (c' # s))"
  by pat_completeness auto
termination
  by (relation "measure length") (auto simp: le_imp_less_Suc length_dropWhile_le less_Suc_eq_le le_SucI)

fun char_ngrams :: "string \<Rightarrow> string list" where
  "char_ngrams (a # b # s) = [a, b] # char_ngrams (b # s)"
| "char_ngrams s = []"

definition count_vectorizer :: "string list \<Rightarrow> py_exception + nat list list" where
  "count_vectorizer raw_documents =
     (let docs = map (\<lambda>doc. char_ngrams (white_spaces_sub (map lower doc))) raw_documents;
          vocabulary = sort (remdups (concat docs))
      in if vocabulary = []
         then Inl (ValueError ''empty vocabulary; perhaps the documents only contain stop words'')
         else Inr (map (\<lambda>doc. map (\<lambda>feature. count_list doc feature) vocabulary) docs))"

section \<open>Polling\<close>

text \<open>
  A peer is remote: what its call does is an input of the round. The environment gives,
  for the client built from a module's address and key, the outcome of
  \<open>asyncio.run(client.call("generate", miner_key, payload, timeout))\<close>, which either
  raises or returns the decoded reply, and the wall-clock time the call took. The ledger
  queries are taken to succeed; their answers are fields of the environment too.
\<close>

datatype call_outcome = Raises py_exception | Returns pyval

record env =
  query_map_address :: "(int, string) dict"
  query_map_key :: "(int, string) dict"
  ss58_address :: string
  get_uids :: "string \<Rightarrow> int"
  get_miner_prompt :: pyval
  call :: "pyval \<Rightarrow> int \<Rightarrow> string \<Rightarrow> pyval \<Rightarrow> call_outcome"
  response_time :: "pyval \<Rightarrow> int \<Rightarrow> string \<Rightarrow> rat"

text \<open>What a round does that can be seen from outside: log lines, requests, the vote.\<close>

datatype event =
    LogSelected "int list"
  | LogAsking int
  | Request pyval int string pyval
  | LogAnswered int
  | LogFailed int
  | LogSkipping int
  | LogNoAnswer
  | Vote vote
  | LogSetWeights "(int, rat) dict"

text \<open>\<open>except Exception\<close> does not catch what derives from \<open>BaseException\<close> only.\<close>

fun is_Exception :: "py_exception \<Rightarrow> bool" where
  "is_Exception KeyboardInterrupt = False"
| "is_Exception e = True"


text \<open>\<open>v[key]\<close> and \<open>v[key] = x\<close> for a string key.\<close>

fun getitem :: "pyval \<Rightarrow> string \<Rightarrow> py_exception + pyval" where
  "getitem (PDict d) key = (case map_of d key of None \<Rightarrow> Inl (KeyError key) | Some x \<Rightarrow> Inr x)"
| "getitem v key = Inl TypeError"

fun setitem_py :: "pyval \<Rightarrow> string \<Rightarrow> pyval \<Rightarrow> py_exception + pyval" where
  "setitem_py (PDict d) key x = Inr (PDict (setitem d key x))"
| "setitem_py v key x = Inl TypeError"

text \<open>Truth value of a Python value, as \<open>not v\<close> tests it.\<close>

fun truthy :: "pyval \<Rightarrow> bool" where
  "truthy PNone = False"
| "truthy (PBool b) = b"
| "truthy (PInt i) = (i \<noteq> 0)"
| "truthy (PFloat x) = (x \<noteq> 0)"
| "truthy (PStr s) = (s \<noteq> [])"
| "truthy (PList xs) = (xs \<noteq> [])"
| "truthy (PDict d) = (d \<noteq> [])"

text \<open>\<open>module_ip, module_port = connection\<close>.\<close>

fun unpack2 :: "pyval \<Rightarrow> py_exception + pyval \<times> pyval" where
  "unpack2 (PList [a, b]) = Inr (a, b)"
| "unpack2 (PList xs) = Inl (ValueError ''wrong number of values to unpack'')"
| "unpack2 v = Inl TypeError"

text \<open>
  \<open>int(module_port)\<close>. The strings that reach it are the digit runs matched by \<open>\d+\<close>;
  any other string is taken to raise \<open>ValueError\<close>.
\<close>

definition digit_value :: "char \<Rightarrow> int" where
  "digit_value c = int (of_char c) - 48"

fun int_of :: "pyval \<Rightarrow> py_exception + int" where
  "int_of (PStr s) =
     (if s \<noteq> [] \<and> (\<forall>c \<in> set s. isdigit c)
      then Inr (foldl (\<lambda>a c. 10 * a + digit_value c) 0 s)
      else Inl (ValueError ''invalid literal for int()''))"
| "int_of (PInt i) = Inr i"
| "int_of (PBool b) = Inr (if b then 1 else 0)"
| "int_of (PFloat x) = Inr (py_int x)"
| "int_of v = Inl TypeError"

text \<open>
  \<open>_get_miner_prediction(question, miner_info)\<close>: the result (\<open>None\<close> as \<open>PNone\<close>) or the
  exception that leaves the method, with the events in order. The client is built and the
  uid is looked up before the \<open>try\<close>; the call, the two subscripts and the log line of
  success are inside it.
\<close>

definition get_miner_prediction ::
  "env \<Rightarrow> pyval \<Rightarrow> pyval \<times> string \<Rightarrow> (py_exception + pyval) \<times> event list" where
  "get_miner_prediction E question miner_info =
     (let (connection, miner_key) = miner_info
      in case unpack2 connection of
           Inl e \<Rightarrow> (Inl e, [])
         | Inr (module_ip, module_port) \<Rightarrow>
             (case int_of module_port of
                Inl e \<Rightarrow> (Inl e, [])
              | Inr p \<Rightarrow>
                  (let uid = get_uids E miner_key;
                       payload = PDict [(''prompt'', question), (''type'', PStr ''prompt''),
                                        (''netuid'', PInt 18)];
                       sent = [LogAsking uid, Request module_ip p miner_key payload]
                   in case call E module_ip p miner_key payload of
                        Raises e \<Rightarrow>
                          if is_Exception e then (Inr PNone, sent @ [LogFailed uid])
                          else (Inl e, sent)
                      | Returns reply \<Rightarrow>
                          (case getitem reply ''answer'' of
                             Inl e \<Rightarrow> (Inr PNone, sent @ [LogFailed uid])
                           | Inr miner_answer \<Rightarrow>
                               (case setitem_py miner_answer ''response_time''
                                       (PFloat (response_time E module_ip p miner_key)) of
                                  Inl e \<Rightarrow> (Inr PNone, sent @ [LogFailed uid])
                                | Inr miner_answer' \<Rightarrow>
                                    (Inr miner_answer', sent @ [LogAnswered uid]))))))"

text \<open>
  \<open>[*executor.map(get_miner_prediction, modules_info.values())]\<close>: every peer is called,
  the results come back in the order of the peers, and the first exception that left a
  call is raised when the list is built. The worker threads are put one after the other.
\<close>

fun poll :: "env \<Rightarrow> pyval \<Rightarrow> (pyval \<times> string) list \<Rightarrow> (py_exception + pyval list) \<times> event list" where
  "poll E question [] = (Inr [], [])"
| "poll E question (miner_info # rest) =
     (let (r, evs) = get_miner_prediction E question miner_info;
          (rs, evs') = poll E question rest
      in (case r of
            Inl e \<Rightarrow> Inl e
          | Inr miner_answer \<Rightarrow>
              (case rs of Inl e \<Rightarrow> Inl e | Inr miner_answers \<Rightarrow> Inr (miner_answer # miner_answers)),
          evs @ evs'))"

section \<open>One validation round\<close>

text \<open>The loop that joins the resolved addresses with the registered keys.\<close>

fun build_modules_info ::
  "(int, pyval) dict \<Rightarrow> (int, string) dict \<Rightarrow> int list \<Rightarrow> (int, pyval \<times> string) dict
   \<Rightarrow> (int, pyval \<times> string) dict" where
  "build_modules_info modules_filtered_address modules_keys [] modules_info = modules_info"
| "build_modules_info modules_filtered_address modules_keys (module_id # ids) modules_info =
     build_modules_info modules_filtered_address modules_keys ids
       (case dict_get modules_filtered_address module_id of
          None \<Rightarrow> modules_info
        | Some module_addr \<Rightarrow>
            if \<not> truthy module_addr then modules_info
            else (case dict_get modules_keys module_id of
                    None \<Rightarrow> modules_info
                  | Some k \<Rightarrow> setitem modules_info module_id (module_addr, k)))"

text \<open>
  The loop over \<open>zip(modules_info.keys(), miner_answers)\<close>. The similarity libraries work
  on strings and the latency is a number: an answer whose \<open>response\<close> is not a string, or
  whose \<open>response_time\<close> is not a number, makes the scoring raise, which is written here
  as a \<open>TypeError\<close> at the place where the value is taken.
\<close>

fun collect_answers ::
  "(int \<times> pyval) list \<Rightarrow> string list \<times> rat list \<times> int list
   \<Rightarrow> (py_exception + string list \<times> rat list \<times> int list) \<times> event list" where
  "collect_answers [] acc = (Inr acc, [])"
| "collect_answers ((uid, miner_response) # rest) (miner_res, miner_time, miner_uids) =
     (if \<not> truthy miner_response
      then (let (r, evs) = collect_answers rest (miner_res, miner_time, miner_uids)
            in (r, LogSkipping uid # evs))
      else case getitem miner_response ''response'' of
             Inl e \<Rightarrow> (Inl e, [])
           | Inr (PStr response) \<Rightarrow>
               (case getitem miner_response ''response_time'' of
                  Inl e \<Rightarrow> (Inl e, [])
                | Inr (PFloat t) \<Rightarrow>
                    collect_answers rest (miner_res @ [response], miner_time @ [t], miner_uids @ [uid])
                | Inr v \<Rightarrow> (Inl TypeError, []))
           | Inr v \<Rightarrow> (Inl TypeError, []))"

text \<open>
  \<open>validate_step\<close> up to and including \<open>_score_miner\<close>: the score dictionary of the round,
  or the exception that ends it.
\<close>

definition gather_scores :: "libs \<Rightarrow> env \<Rightarrow> (py_exception + (int, rat) dict) \<times> event list" where
  "gather_scores L E =
     (let modules_adresses = query_map_address E;
          modules_keys = query_map_key E;
          val_ss58 = ss58_address E
      in if val_ss58 \<notin> set (map snd modules_keys)
         then (Inl (RuntimeError (''validator key '' @ val_ss58 @ '' is not registered in subnet'')), [])
         else
           (let modules_filtered_address = get_ip_port modules_adresses;
                modules_info = build_modules_info modules_filtered_address modules_keys
                                 (map fst modules_keys) [];
                miner_prompt = get_miner_prompt E;
                selected = [LogSelected (map fst modules_info)];
                (polled, evs) = poll E miner_prompt (map snd modules_info)
            in case polled of
                 Inl e \<Rightarrow> (Inl e, selected @ evs)
               | Inr miner_answers \<Rightarrow>
                   (case collect_answers (zip (map fst modules_info) miner_answers) ([], [], []) of
                      (Inl e, evs') \<Rightarrow> (Inl e, selected @ evs @ evs')
                    | (Inr (miner_res, miner_time, miner_uids), evs') \<Rightarrow>
                        (score_miner L miner_res miner_uids miner_time, selected @ evs @ evs'))))"

text \<open>
  \<open>validate_step(syntia_netuid, settings)\<close>; of the settings only
  \<open>max_allowed_weights\<close> is read. \<open>Inr ()\<close> is the normal return.
\<close>

definition validate_step :: "libs \<Rightarrow> env \<Rightarrow> int \<Rightarrow> (py_exception + unit) \<times> event list" where
  "validate_step L E max_allowed_weights =
     (case gather_scores L E of
        (Inl e, evs) \<Rightarrow> (Inl e, evs)
      | (Inr score_dict, evs) \<Rightarrow>
          if score_dict = [] then (Inr (), evs @ [LogNoAnswer])
          else (case set_weights max_allowed_weights score_dict of
                  Inl e \<Rightarrow> (Inl e, evs)
                | Inr v \<Rightarrow> (Inr (), evs @ [Vote v, LogSetWeights score_dict])))"

section \<open>Example inputs\<close>

definition example_scores :: "(int, rat) dict" where
  "example_scores = [(1, 1/2), (2, 3/4), (3, 1/2), (4, 3/4), (5, 1/4)]"

definition zero_scores :: "(int, rat) dict" where
  "zero_scores = [(1, 0), (2, 0)]"

definition example_addresses :: "(int, string) dict" where
  "example_addresses = [(1, ''garbage''), (2, ''10.0.0.5:9000 extra'')]"


text \<open>
  Stand-ins for the similarity libraries in the examples: two answers are similar when they
  are equal, two count vectors are dissimilar when they differ; the vectorizer is the
  character-bigram one.
\<close>

definition toy_libs :: libs where
  "toy_libs = \<lparr>jaro_winkler_similarity = (\<lambda>a b. if a = b then 1 else 0),
               fit_transform = count_vectorizer,
               dice = (\<lambda>u v. if u = v then 0 else 1),
               ratio = (\<lambda>a b. if a = b then 1 else 0)\<rparr>"

text \<open>
  A roster of a validator without a published address and two miners. In \<open>silent_env\<close>
  every call times out; in \<open>answering_env\<close> the first miner answers; in
  \<open>malformed_env\<close> the second miner also replies, with an answer that has no
  \<open>response\<close>; in \<open>unregistered_env\<close> the validator's key is not in the roster.
\<close>

definition good_reply :: pyval where
  "good_reply = PDict [(''answer'', PDict [(''response'', PStr ''hello'')])]"

definition malformed_reply :: pyval where
  "malformed_reply = PDict [(''answer'', PDict [(''text'', PStr ''hello'')])]"

definition silent_env :: env where
  "silent_env =
     \<lparr>query_map_address = [(0, ''none''), (1, ''10.0.0.5:9000''), (2, ''10.0.0.6:9001 extra'')],
      query_map_key = [(0, ''validator''), (1, ''minerA''), (2, ''minerB'')],
      ss58_address = ''validator'',
      get_uids = (\<lambda>k. if k = ''minerA'' then 1 else if k = ''minerB'' then 2 else 0),
      get_miner_prompt = PStr ''question'',
      call = (\<lambda>ip p k payload. Raises TimeoutError),
      response_time = (\<lambda>ip p k. 1 / 2)\<rparr>"


definition malformed_env :: env where
  "malformed_env = silent_env
     \<lparr>call := (\<lambda>ip p k payload. if k = ''minerA'' then Returns good_reply else Returns malformed_reply)\<rparr>"

definition unregistered_env :: env where
  "unregistered_env = silent_env\<lparr>ss58_address := ''stranger''\<rparr>"

definition the_request :: "pyval \<Rightarrow> int \<Rightarrow> string \<Rightarrow> event" where
  "the_request ip p k = Request ip p k
     (PDict [(''prompt'', PStr ''question''), (''type'', PStr ''prompt''), (''netuid'', PInt 18)])"

text \<open>What these rounds show up to the scoring.\<close>

definition silent_events :: "event list" where
  "silent_events =
     [LogSelected [1, 2],
      LogAsking 1, the_request (PStr ''10.0.0.5'') 9000 ''minerA'', LogFailed 1,
      LogAsking 2, the_request (PStr ''10.0.0.6'') 9001 ''minerB'', LogFailed 2,
      LogSkipping 1, LogSkipping 2]"


definition malformed_events :: "event list" where
  "malformed_events =
     [LogSelected [1, 2],
      LogAsking 1, the_request (PStr ''10.0.0.5'') 9000 ''minerA'', LogAnswered 1,
      LogAsking 2, the_request (PStr ''10.0.0.6'') 9001 ''minerB'', LogAnswered 2]"


section \<open>Dictionaries: basic facts\<close>

lemma setitem_fresh: "k \<notin> fst ` set d \<Longrightarrow> setitem d k v = d @ [(k, v)]"
  by (induction d) auto

lemma foldl_setitem_distinct:
  "distinct (map fst (acc @ ps)) \<Longrightarrow> foldl (\<lambda>d (k, v). setitem d k v) acc ps = acc @ ps"
proof (induction ps arbitrary: acc)
  case Nil
  then show ?case by simp
next
  case (Cons p ps)
  obtain k v where p: "p = (k, v)" by (cases p)
  from Cons.prems have fresh: "k \<notin> fst ` set acc" by (auto simp: p)
  from Cons.prems have "distinct (map fst ((acc @ [(k, v)]) @ ps))" by (simp add: p)
  from Cons.IH [OF this] show ?case by (simp add: p setitem_fresh [OF fresh])
qed

lemma dict_of_distinct: "distinct (map fst ps) \<Longrightarrow> dict_of ps = ps"
  using foldl_setitem_distinct [of "[]" ps] by (simp add: dict_of_def)

section \<open>The top of the score table\<close>

lemma sorted_reverse_set: "set (sorted_reverse f xs) = set xs"
  by (simp add: sorted_reverse_def)

lemma sorted_reverse_length: "length (sorted_reverse f xs) = length xs"
  by (simp add: sorted_reverse_def)

lemma sorted_reverse_distinct_keys:
  "distinct (map g (sorted_reverse f xs)) = distinct (map g xs)"
  by (simp add: distinct_map sorted_reverse_def)

lemma sorted_reverse_descending: "sorted_wrt (\<lambda>x y. f y \<le> f x) (sorted_reverse f xs)"
proof -
  have "sorted (map f (sort_key f (rev xs)))" by simp
  then have "sorted_wrt (\<lambda>x y. f x \<le> f y) (sort_key f (rev xs))"
    by (simp add: sorted_wrt_map)
  then show ?thesis
    by (simp add: sorted_reverse_def sorted_wrt_rev)
qed

lemma sorted_reverse_stable:
  "filter (\<lambda>y. f y = c) (sorted_reverse f xs) = filter (\<lambda>y. f y = c) xs"
  by (simp add: sorted_reverse_def rev_filter [symmetric] sort_key_stable)

lemma cut_eq_take:
  assumes "distinct (map fst sd)" "0 \<le> k"
  shows "cut_to_max_allowed_weights sd k = take (nat k) (sorted_reverse snd sd)"
proof -
  have "distinct (map fst (take (nat k) (sorted_reverse snd sd)))"
    using assms(1) by (simp add: take_map [symmetric] sorted_reverse_distinct_keys distinct_take)
  then show ?thesis
    using assms(2) by (simp add: cut_to_max_allowed_weights_def slice_upto_def dict_of_distinct)
qed

lemma take_dominates:
  assumes "sorted_wrt (\<lambda>x y. f y \<le> f x) s" "x \<in> set (take n s)" "y \<in> set s" "y \<notin> set (take n s)"
  shows "f y \<le> f x"
proof -
  from assms(3,4) have "y \<in> set (drop n s)"
    by (metis Un_iff append_take_drop_id set_append)
  moreover have "sorted_wrt (\<lambda>x y. f y \<le> f x) (take n s @ drop n s)" using assms(1) by simp
  ultimately show ?thesis using assms(2) unfolding sorted_wrt_append by blast
qed

text \<open>
  Claim C4. For a score dictionary and a ceiling \<open>k\<close> (a count, so not negative),
  \<open>cut_to_max_allowed_weights\<close> returns \<open>min k n\<close> of the \<open>n\<close> entries, each of them an
  entry of the input; no dropped entry has a higher score than a kept one; among the
  entries of any one score the kept ones are the first in the original order, in that
  order; the result is in descending order of score; and 500 entries under a ceiling of
  420 leave exactly 420.
\<close>

theorem cut_keeps_highest:
  assumes "distinct (map fst sd)" and "0 \<le> k"
  shows "length (cut_to_max_allowed_weights sd k) = min (nat k) (length sd)
       \<and> set (cut_to_max_allowed_weights sd k) \<subseteq> set sd
       \<and> distinct (map fst (cut_to_max_allowed_weights sd k))
       \<and> (\<forall>x \<in> set (cut_to_max_allowed_weights sd k).
            \<forall>y \<in> set sd - set (cut_to_max_allowed_weights sd k). snd y \<le> snd x)
       \<and> (\<forall>c. prefix (filter (\<lambda>e. snd e = c) (cut_to_max_allowed_weights sd k))
                       (filter (\<lambda>e. snd e = c) sd))
       \<and> sorted_wrt (\<lambda>x y. snd y \<le> snd x) (cut_to_max_allowed_weights sd k)
       \<and> (length sd = 500 \<and> k = 420 \<longrightarrow> length (cut_to_max_allowed_weights sd k) = 420)"
proof -
  let ?s = "sorted_reverse snd sd"
  have eq: "cut_to_max_allowed_weights sd k = take (nat k) ?s"
    by (rule cut_eq_take [OF assms])
  have len: "length (take (nat k) ?s) = min (nat k) (length sd)"
    by (simp add: sorted_reverse_length min.commute)
  have sub: "set (take (nat k) ?s) \<subseteq> set sd"
    using set_take_subset [of "nat k" ?s] by (simp add: sorted_reverse_set)
  have dist: "distinct (map fst (take (nat k) ?s))"
    using assms(1) by (simp add: take_map [symmetric] sorted_reverse_distinct_keys distinct_take)
  have dom: "\<forall>x \<in> set (take (nat k) ?s). \<forall>y \<in> set sd - set (take (nat k) ?s). snd y \<le> snd x"
    using take_dominates [OF sorted_reverse_descending [of snd sd]]
    by (auto simp: sorted_reverse_set)
  have ties: "\<forall>c. prefix (filter (\<lambda>e. snd e = c) (take (nat k) ?s)) (filter (\<lambda>e. snd e = c) sd)"
  proof
    fix c
    have "prefix (filter (\<lambda>e. snd e = c) (take (nat k) ?s)) (filter (\<lambda>e. snd e = c) ?s)"
      by (rule filter_mono_prefix) (rule take_is_prefix)
    then show "prefix (filter (\<lambda>e. snd e = c) (take (nat k) ?s)) (filter (\<lambda>e. snd e = c) sd)"
      by (simp add: sorted_reverse_stable)
  qed
  have srt: "sorted_wrt (\<lambda>x y. snd y \<le> snd x) (take (nat k) ?s)"
    by (rule sorted_wrt_take) (rule sorted_reverse_descending)
  have inst: "length sd = 500 \<and> k = 420 \<longrightarrow> length (take (nat k) ?s) = 420"
    using len by auto
  show ?thesis
    unfolding eq using len sub dist dom ties srt inst by blast
qed

lemma example_cut: "cut_to_max_allowed_weights example_scores 3 = [(2, 3/4), (4, 3/4), (1, 1/2)]"
  by code_simp

lemma example_distinct: "distinct (map fst example_scores)"
  by (simp add: example_scores_def)

theorem cut_keeps_highest_witness:
  "distinct (map fst example_scores) \<and> (0::int) \<le> 3
   \<and> cut_to_max_allowed_weights example_scores 3 = [(2, 3/4), (4, 3/4), (1, 1/2)]
   \<and> length (cut_to_max_allowed_weights example_scores 3) = min (nat 3) (length example_scores)
   \<and> list_all (\<lambda>x. list_all (\<lambda>y. y \<in> set (cut_to_max_allowed_weights example_scores 3)
                                     \<or> snd y \<le> snd x) example_scores)
         (cut_to_max_allowed_weights example_scores 3)
   \<and> prefix (filter (\<lambda>e. snd e = 1/2) (cut_to_max_allowed_weights example_scores 3))
             (filter (\<lambda>e. snd e = 1/2) example_scores)"
proof -
  have h: "(0::int) \<le> 3" by simp
  note T = cut_keeps_highest [OF example_distinct h]
  from T have len: "length (cut_to_max_allowed_weights example_scores 3) = min (nat 3) (length example_scores)"
    by (rule conjunct1)
  from T have "\<forall>x \<in> set (cut_to_max_allowed_weights example_scores 3).
        \<forall>y \<in> set example_scores - set (cut_to_max_allowed_weights example_scores 3). snd y \<le> snd x"
    by blast
  then have dom: "list_all (\<lambda>x. list_all (\<lambda>y. y \<in> set (cut_to_max_allowed_weights example_scores 3)
                                     \<or> snd y \<le> snd x) example_scores)
         (cut_to_max_allowed_weights example_scores 3)"
    unfolding list_all_iff by blast
  from T have "\<forall>c. prefix (filter (\<lambda>e. snd e = c) (cut_to_max_allowed_weights example_scores 3))
             (filter (\<lambda>e. snd e = c) example_scores)"
    by blast
  then have ties: "prefix (filter (\<lambda>e. snd e = 1/2) (cut_to_max_allowed_weights example_scores 3))
             (filter (\<lambda>e. snd e = 1/2) example_scores)"
    by (rule spec)
  show ?thesis
    using example_distinct h example_cut len dom ties by blast
qed

section \<open>Normalised weights\<close>




lemma weigh_zero:
  "items \<noteq> [] \<Longrightarrow> weigh 0 items acc = Inl ZeroDivisionError"
  by (cases items) (auto simp: truediv_def)



lemma set_weights_zero_total:
  assumes "cut_to_max_allowed_weights sd k \<noteq> []" "sum_list (map snd (cut_to_max_allowed_weights sd k)) = 0"
  shows "set_weights k sd = Inl ZeroDivisionError"
  using assms by (simp add: set_weights_def Let_def weigh_zero)

lemma set_weights_nothing_kept:
  assumes "cut_to_max_allowed_weights sd k = []"
  shows "set_weights k sd = Inr \<lparr>uids = [], weights = []\<rparr>"
  using assms by (simp add: set_weights_def Let_def dict_of_def)

text \<open>
  Claim C2 reads: when the kept scores sum to zero, normalisation returns an empty weight
  map and raises no division error. The code divides by the total without a test: for
  every score dictionary whose kept part is not empty and sums to zero, \<open>set_weights\<close>
  raises \<open>ZeroDivisionError\<close> and sends no vote.
\<close>

theorem set_weights_zero_total_raises:
  "cut_to_max_allowed_weights sd k \<noteq> [] \<and> sum_list (map snd (cut_to_max_allowed_weights sd k)) = 0
   \<longrightarrow> set_weights k sd = Inl ZeroDivisionError"
  using set_weights_zero_total by blast

theorem set_weights_zero_total_raises_witness:
  "cut_to_max_allowed_weights zero_scores 420 \<noteq> []
   \<and> sum_list (map snd (cut_to_max_allowed_weights zero_scores 420)) = 0
   \<and> set_weights 420 zero_scores = Inl ZeroDivisionError"
proof -
  have c: "cut_to_max_allowed_weights zero_scores 420 = [(1, 0), (2, 0)]" by code_simp
  have h: "cut_to_max_allowed_weights zero_scores 420 \<noteq> []
           \<and> sum_list (map snd (cut_to_max_allowed_weights zero_scores 420)) = 0"
    by (simp add: c)
  with set_weights_zero_total_raises [of zero_scores 420] show ?thesis by blast
qed


section \<open>The address pattern\<close>

lemma try_counts_sound:
  "try_counts k s lo n = Some m \<Longrightarrow>
   \<exists>j m'. lo \<le> j \<and> j \<le> n \<and> m = take j s @ m' \<and> k (drop j s) = Some m'"
proof (induction n)
  case 0
  then show ?case by (auto split: if_splits)
next
  case (Suc n)
  show ?case
  proof (cases "k (drop (Suc n) s)")
    case None
    with Suc.prems have "try_counts k s lo n = Some m" by (auto split: if_splits)
    from Suc.IH [OF this] obtain j m' where "lo \<le> j" "j \<le> n" "m = take j s @ m'"
      "k (drop j s) = Some m'" by blast
    then have "lo \<le> j \<and> j \<le> Suc n \<and> m = take j s @ m' \<and> k (drop j s) = Some m'" by simp
    then show ?thesis by blast
  next
    case (Some m')
    with Suc.prems have "lo \<le> Suc n" "m = take (Suc n) s @ m'" by (auto split: if_splits)
    with Some show ?thesis by blast
  qed
qed

lemma try_counts_complete:
  "lo \<le> j \<Longrightarrow> j \<le> n \<Longrightarrow> k (drop j s) \<noteq> None \<Longrightarrow> try_counts k s lo n \<noteq> None"
proof (induction n)
  case 0
  then show ?case by auto
next
  case (Suc n)
  show ?case
  proof (cases "j = Suc n")
    case True
    with Suc.prems show ?thesis by auto
  next
    case False
    with Suc.prems have "j \<le> n" by simp
    from Suc.IH [OF Suc.prems(1) this Suc.prems(3)] Suc.prems(1) \<open>j \<le> n\<close>
    show ?thesis by (auto split: option.splits)
  qed
qed

lemma take_run_digits:
  "j \<le> length (takeWhile isdigit s) \<Longrightarrow> \<forall>x \<in> set (take j s). isdigit x"
proof -
  assume j: "j \<le> length (takeWhile isdigit s)"
  have "take j s = take j (takeWhile isdigit s)"
    by (metis j append_eq_conv_conj takeWhile_dropWhile_id take_append take_all_iff le_refl
      diff_is_0_eq' take_0 append_Nil2 min.absorb2 take_take)
  then show ?thesis
    by (metis in_set_takeD set_takeWhileD)
qed

lemma match_here_sound:
  "match_here ts s = Some m \<Longrightarrow> \<exists>rest. s = m @ rest \<and> lang ts m"
proof (induction ts arbitrary: s m)
  case Nil
  then show ?case by simp
next
  case (Cons t ts)
  show ?case
  proof (cases t)
    case (Lit c)
    with Cons.prems obtain xs m' where s: "s = c # xs" and m: "m = c # m'"
      and rec: "match_here ts xs = Some m'"
      by (auto split: list.splits if_splits)
    from Cons.IH [OF rec] show ?thesis by (auto simp: Lit s m)
  next
    case (Digits lo hi)
    define top where "top = (case hi of None \<Rightarrow> length (takeWhile isdigit s)
                              | Some h \<Rightarrow> min h (length (takeWhile isdigit s)))"
    from Cons.prems have "try_counts (match_here ts) s lo top = Some m"
      by (simp add: Digits top_def Let_def)
    from try_counts_sound [OF this] obtain j m' where j: "lo \<le> j" "j \<le> top"
      and m: "m = take j s @ m'" and rec: "match_here ts (drop j s) = Some m'" by blast
    from Cons.IH [OF rec] obtain rest where rest: "drop j s = m' @ rest" and l: "lang ts m'" by blast
    have run: "j \<le> length (takeWhile isdigit s)" using j(2) by (auto simp: top_def split: option.splits)
    have hi: "case hi of None \<Rightarrow> True | Some h \<Rightarrow> length (take j s) \<le> h"
      using j(2) by (auto simp: top_def split: option.splits)
    have len: "length (take j s) = j"
      using run length_takeWhile_le [of isdigit s] by simp
    have "s = m @ rest" using rest m by (metis append_assoc append_take_drop_id)
    moreover have "m = take j s @ m' \<and> (\<forall>x \<in> set (take j s). isdigit x) \<and> lo \<le> length (take j s)
                 \<and> (case hi of None \<Rightarrow> True | Some h \<Rightarrow> length (take j s) \<le> h) \<and> lang ts m'"
      using take_run_digits [OF run] j(1) hi l len m by simp
    then have "lang (t # ts) m"
      unfolding Digits lang.simps token.case by blast
    ultimately show ?thesis by blast
  qed
qed

lemma run_covers:
  "\<forall>x \<in> set d. isdigit x \<Longrightarrow> length d \<le> length (takeWhile isdigit (d @ r))"
  by (induction d) auto

lemma match_here_complete:
  "lang ts m \<Longrightarrow> match_here ts (m @ rest) \<noteq> None"
proof (induction ts arbitrary: m rest)
  case Nil
  then show ?case by simp
next
  case (Cons t ts)
  show ?case
  proof (cases t)
    case (Lit c)
    with Cons.prems obtain r where m: "m = c # r" and l: "lang ts r" by auto
    from Cons.IH [OF l, of rest] show ?thesis by (auto simp: Lit m)
  next
    case (Digits lo hi)
    with Cons.prems obtain d r where m: "m = d @ r" and d: "\<forall>x \<in> set d. isdigit x"
      and lo: "lo \<le> length d" and hi: "case hi of None \<Rightarrow> True | Some h \<Rightarrow> length d \<le> h"
      and l: "lang ts r" by auto
    define s where "s = m @ rest"
    define top where "top = (case hi of None \<Rightarrow> length (takeWhile isdigit s)
                              | Some h \<Rightarrow> min h (length (takeWhile isdigit s)))"
    have "length d \<le> length (takeWhile isdigit s)"
      using run_covers [OF d, of "r @ rest"] by (simp add: s_def m)
    with hi have top: "length d \<le> top" by (auto simp: top_def split: option.splits)
    have "drop (length d) s = r @ rest" by (simp add: s_def m)
    with Cons.IH [OF l, of rest] have "match_here ts (drop (length d) s) \<noteq> None" by simp
    with lo top have "try_counts (match_here ts) s lo top \<noteq> None"
      by (rule try_counts_complete)
    then show ?thesis unfolding top_def s_def by (simp add: Digits Let_def)
  qed
qed

lemma re_search_sound:
  "re_search ts s = Some m \<Longrightarrow> \<exists>pre post. s = pre @ m @ post \<and> lang ts m"
proof (induction s)
  case Nil
  then have "match_here ts [] = Some m" by simp
  from match_here_sound [OF this] show ?case by auto
next
  case (Cons c s)
  show ?case
  proof (cases "match_here ts (c # s)")
    case None
    with Cons.prems have "re_search ts s = Some m" by simp
    from Cons.IH [OF this] obtain pre post where "s = pre @ m @ post" "lang ts m" by blast
    then have "c # s = (c # pre) @ m @ post \<and> lang ts m" by simp
    then show ?thesis by blast
  next
    case (Some m')
    with Cons.prems have "match_here ts (c # s) = Some m" by simp
    from match_here_sound [OF this] obtain rest where "c # s = [] @ m @ rest \<and> lang ts m" by auto
    then show ?thesis by blast
  qed
qed

lemma re_search_complete:
  "lang ts m \<Longrightarrow> re_search ts (pre @ m @ post) \<noteq> None"
proof (induction pre)
  case Nil
  from match_here_complete [OF Nil, of post] show ?case
    by (cases "m @ post") auto
next
  case (Cons c pre)
  from Cons.IH [OF Cons.prems] show ?case by (auto split: option.splits)
qed

lemma lang_Lit: "lang (Lit c # ts) m \<longleftrightarrow> (\<exists>r. m = c # r \<and> lang ts r)"
  by simp

lemma lang_octet:
  "lang (Digits 1 (Some 3) # ts) m \<longleftrightarrow> (\<exists>d r. m = d @ r \<and> octet d \<and> lang ts r)"
proof -
  have "octet d \<longleftrightarrow> (\<forall>x \<in> set d. isdigit x) \<and> 1 \<le> length d \<and> length d \<le> 3" for d
    unfolding octet_def by (rule iffI) simp_all
  then show ?thesis by simp
qed

lemma lang_port: "lang [Digits 1 None] m \<longleftrightarrow> port m"
proof -
  have "1 \<le> length m \<longleftrightarrow> m \<noteq> []" by (cases m) simp_all
  then show ?thesis unfolding port_def by (simp add: conj_commute)
qed

lemma lang_IP_REGEX_octets:
  "lang IP_REGEX m \<longleftrightarrow>
     (\<exists>a b c d p. m = a @ CHR ''.'' # b @ CHR ''.'' # c @ CHR ''.'' # d @ CHR '':'' # p
        \<and> octet a \<and> octet b \<and> octet c \<and> octet d \<and> port p)"
proof
  assume "lang IP_REGEX m"
  then obtain a r1 where 1: "m = a @ r1" "octet a"
    and l1: "lang [Lit CHR ''.'', Digits 1 (Some 3), Lit CHR ''.'',
               Digits 1 (Some 3), Lit CHR ''.'', Digits 1 (Some 3), Lit CHR '':'', Digits 1 None] r1"
    unfolding IP_REGEX_def lang_octet by blast
  from l1 obtain r2 where 2: "r1 = CHR ''.'' # r2"
    and l2: "lang [Digits 1 (Some 3), Lit CHR ''.'',
               Digits 1 (Some 3), Lit CHR ''.'', Digits 1 (Some 3), Lit CHR '':'', Digits 1 None] r2"
    unfolding lang_Lit by blast
  from l2 obtain b r3 where 3: "r2 = b @ r3" "octet b"
    and l3: "lang [Lit CHR ''.'',
               Digits 1 (Some 3), Lit CHR ''.'', Digits 1 (Some 3), Lit CHR '':'', Digits 1 None] r3"
    unfolding lang_octet by blast
  from l3 obtain r4 where 4: "r3 = CHR ''.'' # r4"
    and l4: "lang [Digits 1 (Some 3), Lit CHR ''.'', Digits 1 (Some 3), Lit CHR '':'', Digits 1 None] r4"
    unfolding lang_Lit by blast
  from l4 obtain c r5 where 5: "r4 = c @ r5" "octet c"
    and l5: "lang [Lit CHR ''.'', Digits 1 (Some 3), Lit CHR '':'', Digits 1 None] r5"
    unfolding lang_octet by blast
  from l5 obtain r6 where 6: "r5 = CHR ''.'' # r6"
    and l6: "lang [Digits 1 (Some 3), Lit CHR '':'', Digits 1 None] r6"
    unfolding lang_Lit by blast
  from l6 obtain d r7 where 7: "r6 = d @ r7" "octet d"
    and l7: "lang [Lit CHR '':'', Digits 1 None] r7"
    unfolding lang_octet by blast
  from l7 obtain p where 8: "r7 = CHR '':'' # p" and l8: "lang [Digits 1 None] p"
    unfolding lang_Lit by blast
  from l8 have p: "port p" unfolding lang_port .
  have "m = a @ CHR ''.'' # b @ CHR ''.'' # c @ CHR ''.'' # d @ CHR '':'' # p"
    by (simp only: 1(1) 2 3(1) 4 5(1) 6 7(1) 8)
  with 1(2) 3(2) 5(2) 7(2) p
  show "\<exists>a b c d p. m = a @ CHR ''.'' # b @ CHR ''.'' # c @ CHR ''.'' # d @ CHR '':'' # p
        \<and> octet a \<and> octet b \<and> octet c \<and> octet d \<and> port p"
    by blast
next
  assume "\<exists>a b c d p. m = a @ CHR ''.'' # b @ CHR ''.'' # c @ CHR ''.'' # d @ CHR '':'' # p
        \<and> octet a \<and> octet b \<and> octet c \<and> octet d \<and> port p"
  then obtain a b c d p where m: "m = a @ CHR ''.'' # b @ CHR ''.'' # c @ CHR ''.'' # d @ CHR '':'' # p"
    and o: "octet a" "octet b" "octet c" "octet d" and p: "port p"
    by blast
  from p have l8: "lang [Digits 1 None] p" unfolding lang_port .
  then have l7: "lang [Lit CHR '':'', Digits 1 None] (CHR '':'' # p)"
    unfolding lang_Lit by blast
  with o(4) have l6: "lang [Digits 1 (Some 3), Lit CHR '':'', Digits 1 None] (d @ CHR '':'' # p)"
    unfolding lang_octet by blast
  then have l5: "lang [Lit CHR ''.'', Digits 1 (Some 3), Lit CHR '':'', Digits 1 None]
                   (CHR ''.'' # d @ CHR '':'' # p)"
    unfolding lang_Lit by blast
  with o(3) have l4: "lang [Digits 1 (Some 3), Lit CHR ''.'', Digits 1 (Some 3), Lit CHR '':'', Digits 1 None]
                   (c @ CHR ''.'' # d @ CHR '':'' # p)"
    unfolding lang_octet by blast
  then have l3: "lang [Lit CHR ''.'', Digits 1 (Some 3), Lit CHR ''.'', Digits 1 (Some 3), Lit CHR '':'',
                       Digits 1 None]
                   (CHR ''.'' # c @ CHR ''.'' # d @ CHR '':'' # p)"
    unfolding lang_Lit by blast
  with o(2) have l2: "lang [Digits 1 (Some 3), Lit CHR ''.'', Digits 1 (Some 3), Lit CHR ''.'',
                       Digits 1 (Some 3), Lit CHR '':'', Digits 1 None]
                   (b @ CHR ''.'' # c @ CHR ''.'' # d @ CHR '':'' # p)"
    unfolding lang_octet by blast
  then have l1: "lang [Lit CHR ''.'', Digits 1 (Some 3), Lit CHR ''.'', Digits 1 (Some 3), Lit CHR ''.'',
                       Digits 1 (Some 3), Lit CHR '':'', Digits 1 None]
                   (CHR ''.'' # b @ CHR ''.'' # c @ CHR ''.'' # d @ CHR '':'' # p)"
    unfolding lang_Lit by blast
  with o(1) show "lang IP_REGEX m"
    unfolding IP_REGEX_def m lang_octet by blast
qed

lemma lang_IP_REGEX:
  "lang IP_REGEX m \<longleftrightarrow> (\<exists>h p. m = h @ '':'' @ p \<and> host h \<and> port p)"
proof
  assume "lang IP_REGEX m"
  then obtain a b c d p where m: "m = a @ CHR ''.'' # b @ CHR ''.'' # c @ CHR ''.'' # d @ CHR '':'' # p"
    and o: "octet a" "octet b" "octet c" "octet d" and p: "port p"
    unfolding lang_IP_REGEX_octets by blast
  have "host (a @ ''.'' @ b @ ''.'' @ c @ ''.'' @ d)"
    unfolding host_def using o by blast
  moreover have "m = (a @ ''.'' @ b @ ''.'' @ c @ ''.'' @ d) @ '':'' @ p" by (simp add: m)
  ultimately show "\<exists>h p. m = h @ '':'' @ p \<and> host h \<and> port p" using p by blast
next
  assume "\<exists>h p. m = h @ '':'' @ p \<and> host h \<and> port p"
  then obtain h p where m0: "m = h @ '':'' @ p" and h: "host h" and p: "port p" by blast
  from h obtain a b c d where hd: "h = a @ ''.'' @ b @ ''.'' @ c @ ''.'' @ d"
    and o: "octet a" "octet b" "octet c" "octet d"
    unfolding host_def by blast
  have "m = a @ CHR ''.'' # b @ CHR ''.'' # c @ CHR ''.'' # d @ CHR '':'' # p" by (simp add: m0 hd)
  with o p show "lang IP_REGEX m" unfolding lang_IP_REGEX_octets by blast
qed

lemma extract_address_iff: "extract_address raw \<noteq> None \<longleftrightarrow> contains_host_port raw"
proof
  assume "extract_address raw \<noteq> None"
  then obtain m where "re_search IP_REGEX raw = Some m" by (auto simp: extract_address_def)
  from re_search_sound [OF this] obtain pre post where raw: "raw = pre @ m @ post"
    and "lang IP_REGEX m" by blast
  then obtain h p where "m = h @ '':'' @ p" "host h" "port p" unfolding lang_IP_REGEX by blast
  with raw have "raw = pre @ h @ '':'' @ p @ post \<and> host h \<and> port p" by simp
  then show "contains_host_port raw" unfolding contains_host_port_def by blast
next
  assume "contains_host_port raw"
  then obtain pre h p post where raw: "raw = pre @ (h @ '':'' @ p) @ post" and "host h" "port p"
    unfolding contains_host_port_def by auto
  then have "lang IP_REGEX (h @ '':'' @ p)" unfolding lang_IP_REGEX by blast
  from re_search_complete [OF this, of pre post] show "extract_address raw \<noteq> None"
    by (simp add: extract_address_def raw)
qed

lemma extract_address_shape:
  assumes "extract_address raw = Some m"
  shows "\<exists>pre h p post. raw = pre @ h @ '':'' @ p @ post \<and> m = h @ '':'' @ p \<and> host h \<and> port p"
proof -
  from assms have "re_search IP_REGEX raw = Some m" by (simp add: extract_address_def)
  from re_search_sound [OF this] obtain pre post where raw: "raw = pre @ m @ post"
    and "lang IP_REGEX m" by blast
  then obtain h p where "m = h @ '':'' @ p" "host h" "port p" unfolding lang_IP_REGEX by blast
  with raw have "raw = pre @ h @ '':'' @ p @ post \<and> m = h @ '':'' @ p \<and> host h \<and> port p" by simp
  then show ?thesis by blast
qed

lemma split_no_sep: "sep \<notin> set s \<Longrightarrow> split sep s = [s]"
  by (induction s) auto

lemma split_at_sep: "sep \<notin> set a \<Longrightarrow> split sep (a @ sep # b) = a # split sep b"
  by (induction a) auto

lemma isdigit_not_colon: "isdigit c \<Longrightarrow> c \<noteq> CHR '':''"
  by (auto simp: isdigit_def)

lemma octet_no_colon: "octet d \<Longrightarrow> CHR '':'' \<notin> set d"
  using isdigit_not_colon by (auto simp: octet_def)

lemma host_no_colon: "host h \<Longrightarrow> CHR '':'' \<notin> set h"
  using octet_no_colon by (auto simp: host_def)

lemma port_no_colon: "port p \<Longrightarrow> CHR '':'' \<notin> set p"
  using isdigit_not_colon by (auto simp: port_def)

lemma split_host_port: "host h \<Longrightarrow> port p \<Longrightarrow> split CHR '':'' (h @ '':'' @ p) = [h, p]"
  using split_at_sep [OF host_no_colon, of h p] split_no_sep [OF port_no_colon, of p] by simp

lemma address_entry_keys:
  "map fst (concat (map address_entry addrs))
   = map fst (filter (\<lambda>(id, raw). extract_address raw \<noteq> None) addrs)"
  by (induction addrs) (auto simp: address_entry_def split: option.splits)

lemma filter_keys_distinct:
  "distinct (map fst addrs) \<Longrightarrow> distinct (map fst (filter P addrs))"
  by (induction addrs) auto

lemma get_ip_port_eq:
  assumes "distinct (map fst addrs)"
  shows "get_ip_port addrs = concat (map address_entry addrs)"
proof -
  let ?f = "\<lambda>(id, addr). (id, extract_address addr)"
  have k: "map fst (map ?f addrs) = map fst addrs" by (induction addrs) auto
  have 1: "dict_of (map ?f addrs) = map ?f addrs"
    by (rule dict_of_distinct) (simp only: k assms)
  have 2: "concat (map (\<lambda>(id, x). case x of None \<Rightarrow> []
                     | Some m \<Rightarrow> [(id, PList (map PStr (split CHR '':'' m)))]) (map ?f addrs))
           = concat (map address_entry addrs)"
    by (induction addrs) (auto simp: address_entry_def)
  have "distinct (map fst (concat (map address_entry addrs)))"
    unfolding address_entry_keys by (rule filter_keys_distinct [OF assms])
  then have 3: "dict_of (concat (map address_entry addrs)) = concat (map address_entry addrs)"
    by (rule dict_of_distinct)
  show ?thesis
    by (simp only: get_ip_port_def Let_def 1 2 3)
qed

lemma address_entry_shape:
  assumes "(uid, v) \<in> set (concat (map address_entry addrs))"
  shows "\<exists>raw pre h p post. (uid, raw) \<in> set addrs \<and> raw = pre @ h @ '':'' @ p @ post
           \<and> host h \<and> port p \<and> v = PList [PStr h, PStr p]"
proof -
  from assms obtain e where e: "e \<in> set addrs" and mem: "(uid, v) \<in> set (address_entry e)"
    by auto
  obtain i raw where ir: "e = (i, raw)" by (cases e)
  from mem obtain m where ex: "extract_address raw = Some m"
    and uv: "(uid, v) = (i, PList (map PStr (split CHR '':'' m)))"
    by (cases "extract_address raw") (auto simp: address_entry_def ir)
  from extract_address_shape [OF ex] obtain pre h p post where
    raw: "raw = pre @ h @ '':'' @ p @ post" and m: "m = h @ '':'' @ p" and hp: "host h" "port p"
    by blast
  have "split CHR '':'' m = [h, p]" unfolding m by (rule split_host_port [OF hp])
  with uv have "v = PList [PStr h, PStr p]" and "uid = i" by simp_all
  with e ir raw hp show ?thesis by blast
qed

lemma example_resolved:
  "get_ip_port example_addresses = [(2, PList [PStr ''10.0.0.5'', PStr ''9000''])]"
  by code_simp

text \<open>
  Claim C8, as amended. For a dictionary of raw addresses, \<open>get_ip_port\<close> keeps, in
  order, exactly the entries whose raw string contains \<open>host:port\<close> (four dot-separated
  groups of one to three digits, a colon, one or more digits) and raises nothing; the value
  kept is the two-element list of the host text and the port text of such an occurrence;
  on \<open>{1: "garbage", 2: "10.0.0.5:9000 extra"}\<close> the result is
  \<open>{2: ["10.0.0.5", "9000"]}\<close>.
\<close>

theorem get_ip_port_keeps_matching:
  assumes "distinct (map fst addrs)"
  shows "map fst (get_ip_port addrs) = map fst (filter (\<lambda>(id, raw). contains_host_port raw) addrs)
       \<and> (\<forall>(id, v) \<in> set (get_ip_port addrs).
            \<exists>raw pre h p post. (id, raw) \<in> set addrs \<and> raw = pre @ h @ '':'' @ p @ post
               \<and> host h \<and> port p \<and> v = PList [PStr h, PStr p])
       \<and> get_ip_port example_addresses = [(2, PList [PStr ''10.0.0.5'', PStr ''9000''])]"
proof -
  have "(\<lambda>(id::int, raw). extract_address raw \<noteq> None) = (\<lambda>(id, raw). contains_host_port raw)"
    by (intro ext) (auto simp: extract_address_iff [symmetric])
  then have keys: "map fst (get_ip_port addrs) = map fst (filter (\<lambda>(id, raw). contains_host_port raw) addrs)"
    by (simp only: get_ip_port_eq [OF assms] address_entry_keys)
  have shape: "\<forall>(id, v) \<in> set (get_ip_port addrs).
            \<exists>raw pre h p post. (id, raw) \<in> set addrs \<and> raw = pre @ h @ '':'' @ p @ post
               \<and> host h \<and> port p \<and> v = PList [PStr h, PStr p]"
    unfolding get_ip_port_eq [OF assms] using address_entry_shape by blast
  from keys shape example_resolved show ?thesis by blast
qed

theorem get_ip_port_keeps_matching_witness:
  "distinct (map fst example_addresses)
   \<and> get_ip_port example_addresses = [(2, PList [PStr ''10.0.0.5'', PStr ''9000''])]
   \<and> map fst (filter (\<lambda>(id, raw). contains_host_port raw) example_addresses) = [2]
   \<and> \<not> contains_host_port ''garbage''
   \<and> contains_host_port ''10.0.0.5:9000 extra''"
proof -
  have d: "distinct (map fst example_addresses)" by (simp add: example_addresses_def)
  from get_ip_port_keeps_matching [OF d]
  have k: "map fst (filter (\<lambda>(id, raw). contains_host_port raw) example_addresses) = [2]"
    by (simp add: example_resolved)
  then have "\<not> contains_host_port ''garbage'' \<and> contains_host_port ''10.0.0.5:9000 extra''"
    by (auto simp: example_addresses_def split: if_splits)
  with d k example_resolved show ?thesis by blast
qed

text \<open>
  The claim as first stated has the port as an integer in a host/port record. The value
  \<open>get_ip_port\<close> returns is the list that \<open>split(":")\<close> gives, and its second element is
  the string \<open>"9000"\<close>; the conversion to an integer is made later, in
  \<open>_get_miner_prediction\<close>.
\<close>

theorem get_ip_port_port_is_text:
  "dict_get (get_ip_port example_addresses) 2 = Some (PList [PStr ''10.0.0.5'', PStr ''9000''])
   \<and> get_ip_port example_addresses \<noteq> [(2, PDict [(''host'', PStr ''10.0.0.5''), (''port'', PInt 9000)])]
   \<and> PStr ''9000'' \<noteq> PInt 9000"
  by (simp add: example_resolved dict_get_def)

section \<open>Scores\<close>

text \<open>
  Claim C5 reads: on an empty input the scorer returns an empty map and raises nothing.
  With the character-bigram vectorizer the code calls, \<open>_score_miner([], [], [])\<close> raises
  the vectorizer's \<open>ValueError\<close> for an empty vocabulary, whatever the other measures
  are: \<open>calculate_dice_similarity_scores\<close> vectorizes before it looks at the length.
\<close>

theorem score_miner_empty_raises:
  "score_miner (L\<lparr>fit_transform := count_vectorizer\<rparr>) [] [] []
   = Inl (ValueError ''empty vocabulary; perhaps the documents only contain stop words'')"
  by (simp add: score_miner_def calculate_dice_similarity_scores_def count_vectorizer_def)

theorem score_miner_empty_raises_witness:
  "score_miner toy_libs [] [] []
   = Inl (ValueError ''empty vocabulary; perhaps the documents only contain stop words'')"
  using score_miner_empty_raises [of toy_libs] by (simp add: toy_libs_def)

section \<open>Short answers\<close>

lemma short_answer_vocabulary:
  "count_vectorizer [''a'']
   = Inl (ValueError ''empty vocabulary; perhaps the documents only contain stop words'')"
  by code_simp

text \<open>
  Claim C6 reads: for every non-empty input, peer \<open>i\<close> gets the average of its three
  aggregates times \<open>0.8\<close> plus \<open>(1 / max(latency, 1)) * 0.2\<close>. An answer of one character
  has no bigram: on the single answer \<open>'a'\<close>, where the claim gives the latency term alone,
  \<open>_score_miner(['a'], [1], [2.0])\<close> raises the vectorizer's \<open>ValueError\<close> for an empty
  vocabulary and assigns no score, whatever the other measures are.
\<close>

theorem score_miner_short_answer_raises:
  "score_miner (L\<lparr>fit_transform := count_vectorizer\<rparr>) [''a''] [1] [2]
   = Inl (ValueError ''empty vocabulary; perhaps the documents only contain stop words'')"
  by (simp add: score_miner_def calculate_dice_similarity_scores_def short_answer_vocabulary)

theorem score_miner_short_answer_raises_witness:
  "score_miner toy_libs [''a''] [1] [2]
   = Inl (ValueError ''empty vocabulary; perhaps the documents only contain stop words'')"
  using score_miner_short_answer_raises [of toy_libs] by (simp add: toy_libs_def)

lemma short_answers_vectorized:
  "count_vectorizer [''a'', ''b'', ''hello''] = Inr [[0, 0, 0, 0], [0, 0, 0, 0], [1, 1, 1, 1]]"
  by code_simp

lemma short_answers_pairs:
  "pairwise_scores (\<lambda>i j. 1 - d ([[0, 0, 0, 0], [0, 0, 0, 0], [1, 1, 1, 1]] ! i)
                               ([[0, 0, 0, 0], [0, 0, 0, 0], [1, 1, 1, 1]] ! j)) 3
   = [0 + (1 - d [0, 0, 0, 0] [0, 0, 0, 0]) * (1 / 10) + (1 - d [0, 0, 0, 0] [1, 1, 1, 1]) * (1 / 10),
      0 + (1 - d [0, 0, 0, 0] [0, 0, 0, 0]) * (1 / 10) + (1 - d [0, 0, 0, 0] [1, 1, 1, 1]) * (1 / 10),
      0 + (1 - d [1, 1, 1, 1] [0, 0, 0, 0]) * (1 / 10) + (1 - d [1, 1, 1, 1] [0, 0, 0, 0]) * (1 / 10)]"
  by (simp add: pairwise_scores_def upt_rec [of 0] upt_rec [of 1] upt_rec [of 2]
        numeral_3_eq_3 numeral_2_eq_2)

text \<open>
  Claim C10 reads: every score returned for a non-empty input is at least
  \<open>(1 / max(latency, 1)) * 0.2\<close>, hence positive. On the answers \<open>'a'\<close>, \<open>'b'\<close> and
  \<open>'hello'\<close> the vocabulary is that of \<open>'hello'\<close> and the rows of the first two answers
  are all zero. The dice scores of both are built from \<open>dice\<close> of these two rows, for
  which scipy divides zero by zero and returns NaN: what stands below for that value of
  \<open>dice\<close> is no number in the code.
  \<open>_score_miner(['a', 'b', 'hello'], [1, 2, 3], [2.0, 2.0, 2.0])\<close> returns
  \<open>{1: nan, 2: nan, 3: 0.1}\<close>: two scores are not positive, and \<open>int(nan)\<close> then raises
  in \<open>set_weights\<close>.
\<close>

theorem dice_scores_divide_zero_by_zero:
  "calculate_dice_similarity_scores (L\<lparr>fit_transform := count_vectorizer\<rparr>) [''a'', ''b'', ''hello'']
   = Inr [0 + (1 - dice L [0, 0, 0, 0] [0, 0, 0, 0]) * (1 / 10)
            + (1 - dice L [0, 0, 0, 0] [1, 1, 1, 1]) * (1 / 10),
          0 + (1 - dice L [0, 0, 0, 0] [0, 0, 0, 0]) * (1 / 10)
            + (1 - dice L [0, 0, 0, 0] [1, 1, 1, 1]) * (1 / 10),
          0 + (1 - dice L [1, 1, 1, 1] [0, 0, 0, 0]) * (1 / 10)
            + (1 - dice L [1, 1, 1, 1] [0, 0, 0, 0]) * (1 / 10)]
   \<and> dice_dividend [0, 0, 0, 0] [0, 0, 0, 0] = 0
   \<and> dice_divisor [0, 0, 0, 0] [0, 0, 0, 0] = 0
   \<and> scipy_dice [0, 0, 0, 0] [0, 0, 0, 0] = None"
proof -
  have "dice_dividend [0, 0, 0, 0] [0, 0, 0, 0] = 0" "dice_divisor [0, 0, 0, 0] [0, 0, 0, 0] = 0"
    "scipy_dice [0, 0, 0, 0] [0, 0, 0, 0] = None"
    by (simp_all add: scipy_dice_def dice_divisor_def dice_dividend_def)
  moreover have "calculate_dice_similarity_scores (L\<lparr>fit_transform := count_vectorizer\<rparr>)
                   [''a'', ''b'', ''hello'']
                 = Inr (pairwise_scores
                     (\<lambda>i j. 1 - dice L ([[0, 0, 0, 0], [0, 0, 0, 0], [1, 1, 1, 1]] ! i)
                                         ([[0, 0, 0, 0], [0, 0, 0, 0], [1, 1, 1, 1]] ! j)) 3)"
    by (simp add: calculate_dice_similarity_scores_def short_answers_vectorized numeral_3_eq_3)
  ultimately show ?thesis
    by (simp only: short_answers_pairs [of "dice L"] simp_thms)
qed

section \<open>A round\<close>

subsection \<open>Nothing before the scoring votes\<close>





subsection \<open>The example rounds\<close>





lemma silent_round_polled:
  "gather_scores L silent_env = (score_miner L [] [] [], silent_events)"
  by code_simp

lemma dice_scores_empty_vocabulary:
  "calculate_dice_similarity_scores (L\<lparr>fit_transform := count_vectorizer\<rparr>) []
   = Inl (ValueError ''empty vocabulary; perhaps the documents only contain stop words'')"
  by (simp add: calculate_dice_similarity_scores_def count_vectorizer_def)

lemma silent_round_raises:
  "validate_step (L\<lparr>fit_transform := count_vectorizer\<rparr>) silent_env 420 =
   (Inl (ValueError ''empty vocabulary; perhaps the documents only contain stop words''),
    silent_events)"
  by (simp add: validate_step_def silent_round_polled score_miner_def
        dice_scores_empty_vocabulary)

lemma malformed_round_raises:
  "validate_step L malformed_env 420 = (Inl (KeyError ''response''), malformed_events)"
  by code_simp

subsection \<open>More than a thousand equal scores\<close>









subsection \<open>Submission\<close>




subsection \<open>Registration\<close>

text \<open>
  Claim C9. When the validator's key is not among the keys registered in the subnet,
  \<open>validate_step\<close> raises \<open>RuntimeError\<close>, and nothing has happened before: no peer was
  asked, nothing was logged, no vote was made. Nothing in \<open>validate_step\<close> catches it.
\<close>

theorem validate_step_unregistered_raises:
  assumes "ss58_address E \<notin> set (map snd (query_map_key E))"
  shows "validate_step L E max_allowed_weights =
         (Inl (RuntimeError (''validator key '' @ ss58_address E @ '' is not registered in subnet'')), [])"
  using assms by (simp add: validate_step_def gather_scores_def Let_def)

theorem validate_step_unregistered_raises_witness:
  "ss58_address unregistered_env \<notin> set (map snd (query_map_key unregistered_env))
   \<and> validate_step toy_libs unregistered_env 420 =
       (Inl (RuntimeError ''validator key stranger is not registered in subnet''), [])"
proof -
  have h: "ss58_address unregistered_env \<notin> set (map snd (query_map_key unregistered_env))"
    by (simp add: unregistered_env_def silent_env_def)
  have s: "ss58_address unregistered_env = ''stranger''"
    by (simp add: unregistered_env_def)
  from validate_step_unregistered_raises [OF h, of toy_libs 420] h show ?thesis
    by (simp add: s)
qed

subsection \<open>Peers that fail\<close>

text \<open>
  Claim C7 reads: a peer's failure gives \<open>None\<close> for that peer, is logged, and never ends
  the round. The \<open>try\<close> of \<open>_get_miner_prediction\<close> covers the call and the subscript
  \<open>["answer"]\<close> only. A peer whose reply is \<open>{"answer": {"text": "hello"}}\<close> is logged as
  having answered, its result is not \<open>None\<close>, and \<open>miner_response['response']\<close> in
  \<open>validate_step\<close> raises \<open>KeyError\<close>: the round ends without a vote, although the other
  peer answered well. And when every peer times out, each gives \<open>None\<close> and is logged,
  but the round ends with the vectorizer's \<open>ValueError\<close> on the empty list of answers.
\<close>

theorem validate_step_peer_failure_aborts:
  "validate_step L malformed_env 420 = (Inl (KeyError ''response''), malformed_events)
   \<and> validate_step (L\<lparr>fit_transform := count_vectorizer\<rparr>) silent_env 420 =
       (Inl (ValueError ''empty vocabulary; perhaps the documents only contain stop words''),
        silent_events)"
  by (simp add: malformed_round_raises silent_round_raises)

theorem validate_step_peer_failure_aborts_witness:
  "validate_step toy_libs malformed_env 420 = (Inl (KeyError ''response''), malformed_events)
   \<and> validate_step toy_libs silent_env 420 =
       (Inl (ValueError ''empty vocabulary; perhaps the documents only contain stop words''),
        silent_events)"
  using validate_step_peer_failure_aborts [of toy_libs] by (simp add: toy_libs_def)

end
